theory Spec2Isabelle
  imports Main "HOL-Library.Sublist"
begin

section \<open>Text primitives\<close>

text \<open>
  Python \<^verbatim>\<open>str\<close> values are modelled as \<^typ>\<open>string\<close>, so a character is a code point
  below 256. The predicates below are Python's on that range.
\<close>

definition sq :: char where
  "sq = CHR 0x27"

definition dq :: char where
  "dq = CHR 0x22"

text \<open>
  \<^verbatim>\<open>str.isspace\<close> on one character, which is also what \<^verbatim>\<open>\s\<close> of \<^verbatim>\<open>re\<close> matches on a
  \<^verbatim>\<open>str\<close> pattern and what \<^verbatim>\<open>str.strip()\<close> removes: TAB, LF, VT, FF, CR, the four
  separators FS, GS, RS, US, the space, NEL and the no-break space.
\<close>

definition is_space :: "char \<Rightarrow> bool" where
  "is_space c =
     (let n = (of_char c :: nat)
      in (9 \<le> n \<and> n \<le> 13) \<or> (28 \<le> n \<and> n \<le> 32) \<or> n = 133 \<or> n = 160)"

text \<open>
  \<^verbatim>\<open>str.lower\<close> on one character: the ASCII capitals and the Latin-1 capitals
  (\<^verbatim>\<open>0xC0\<close> to \<^verbatim>\<open>0xDE\<close> without the multiplication sign \<^verbatim>\<open>0xD7\<close>) move up by 32.
\<close>

definition lower_char :: "char \<Rightarrow> char" where
  "lower_char c =
     (let n = (of_char c :: nat)
      in if (65 \<le> n \<and> n \<le> 90) \<or> (192 \<le> n \<and> n \<le> 222 \<and> n \<noteq> 215)
         then char_of (n + 32) else c)"

definition lower :: "string \<Rightarrow> string" where
  "lower s = map lower_char s"

definition strip :: "string \<Rightarrow> string" where
  "strip s = rev (dropWhile is_space (rev (dropWhile is_space s)))"

text \<open>\<^verbatim>\<open>str(i)\<close> for an integer, as the f-strings of the source render one.\<close>

definition digit_char :: "nat \<Rightarrow> char" where
  "digit_char d = char_of (48 + d)"

fun digits :: "nat \<Rightarrow> string" where
  "digits n = (if n < 10 then [digit_char n] else digits (n div 10) @ [digit_char (n mod 10)])"

definition str_int :: "int \<Rightarrow> string" where
  "str_int i = (if i < 0 then ''-'' @ digits (nat (- i)) else digits (nat i))"

section \<open>The signature parser\<close>

text \<open>
  \<^verbatim>\<open>parse_missing_module\<close> calls \<^verbatim>\<open>re.search\<close> with three patterns, in this order, and
  returns group 1 of the first search that succeeds:
  \<^verbatim>\<open>No module named '([^']*)'\<close>, the same with double quotes, and
  \<^verbatim>\<open>ImportError: No module named (\S+)\<close>.

  Each pattern is a literal followed by one greedy group. \<open>strip_prefix\<close> consumes
  the literal; the functions \<open>match_quoted\<close> and \<open>match_unquoted\<close> are the match
  anchored at the start of their argument, and \<open>re_search\<close> tries every start
  position from the left, the end of the text included.
\<close>

fun strip_prefix :: "string \<Rightarrow> string \<Rightarrow> string option" where
  "strip_prefix [] s = Some s"
| "strip_prefix (p # ps) [] = None"
| "strip_prefix (p # ps) (c # cs) = (if p = c then strip_prefix ps cs else None)"

text \<open>
  The group \<^verbatim>\<open>[^q]*\<close> takes the longest run without the quote; the pattern then needs
  the quote itself, which no shorter run can supply, so the match exists exactly when
  a quote follows.
\<close>

definition match_quoted :: "char \<Rightarrow> string \<Rightarrow> string option" where
  "match_quoted q s =
     (case strip_prefix (''No module named '' @ [q]) s of
        None \<Rightarrow> None
      | Some rest \<Rightarrow>
          if q \<in> set rest then Some (takeWhile (\<lambda>c. c \<noteq> q) rest) else None)"

text \<open>The group \<^verbatim>\<open>\S+\<close> takes the longest run without whitespace, and needs one character.\<close>

definition match_unquoted :: "string \<Rightarrow> string option" where
  "match_unquoted s =
     (case strip_prefix ''ImportError: No module named '' s of
        None \<Rightarrow> None
      | Some rest \<Rightarrow>
          (let g = takeWhile (\<lambda>c. \<not> is_space c) rest
           in if g = [] then None else Some g))"

fun re_search :: "(string \<Rightarrow> string option) \<Rightarrow> string \<Rightarrow> string option" where
  "re_search m [] = m []"
| "re_search m (c # cs) =
     (case m (c # cs) of Some g \<Rightarrow> Some g | None \<Rightarrow> re_search m cs)"

definition patterns :: "(string \<Rightarrow> string option) list" where
  "patterns = [match_quoted sq, match_quoted dq, match_unquoted]"

fun first_match :: "(string \<Rightarrow> string option) list \<Rightarrow> string \<Rightarrow> string option" where
  "first_match [] s = None"
| "first_match (m # ms) s =
     (case re_search m s of Some g \<Rightarrow> Some g | None \<Rightarrow> first_match ms s)"

definition parse_missing_module :: "string \<Rightarrow> string option" where
  "parse_missing_module stderr_output = first_match patterns stderr_output"

section \<open>Effects\<close>

text \<open>
  What the program does to the outside world is recorded as a list of events, in
  order: a call of \<^verbatim>\<open>logging\<close> at a level, a \<^verbatim>\<open>print\<close>, an \<^verbatim>\<open>input\<close> with its prompt,
  and a \<^verbatim>\<open>subprocess.run\<close> with its argument vector.
\<close>

datatype level = INFO | WARNING | ERROR | CRITICAL

datatype event =
    Logging level string
  | Print string
  | Input string
  | Subprocess_run "string list"

text \<open>
  What the outside world answers. Running the target script either completes with
  a return code and the two captured streams, or raises \<^verbatim>\<open>TimeoutExpired\<close>,
  \<^verbatim>\<open>FileNotFoundError\<close> or another exception (carried as its \<^verbatim>\<open>str\<close>).
  \<^verbatim>\<open>input\<close> returns a line, or raises \<^verbatim>\<open>KeyboardInterrupt\<close> or another exception
  (\<^verbatim>\<open>EOFError\<close>). Running pip has no timeout.
\<close>

datatype run_result =
    Completed int string string
  | Timeout_expired
  | File_not_found
  | Other_error string

datatype prompt_result =
    Response string
  | Keyboard_interrupt
  | Input_error string

datatype pip_result =
    Pip_completed int string string
  | Pip_not_found
  | Pip_error string

text \<open>
  A call returns a value, leaves through \<^verbatim>\<open>sys.exit\<close>, or raises an exception that is
  an instance of \<^verbatim>\<open>Exception\<close>.
\<close>

datatype 'a result = Return 'a | Sys_exit int | Raise string

section \<open>The installer\<close>

text \<open>
  \<^verbatim>\<open>install_package(package_name, python_executable, assume_yes)\<close>. The two
  first arguments of the model are the answers of \<^verbatim>\<open>input\<close> (to a prompt) and of
  \<^verbatim>\<open>subprocess.run\<close> with \<^verbatim>\<open>check=True\<close> (to an argument vector). The result is the
  events of the call and how it ends.
\<close>

definition install_package ::
  "(string \<Rightarrow> prompt_result) \<Rightarrow> (string list \<Rightarrow> pip_result) \<Rightarrow>
   string \<Rightarrow> string \<Rightarrow> bool \<Rightarrow> event list \<times> (bool \<times> string) result" where
  "install_package ask pip package_name python_executable assume_yes =
     (if package_name = [] then ([], Return (False, ''No package name provided.''))
      else
        let question = ''Missing package '' @ [sq] @ package_name @ [sq]
                         @ ''. Install with pip? [Y/n] '';
            (asked, stop) =
              (if \<not> assume_yes then
                 (case ask question of
                    Response prompt \<Rightarrow>
                      if strip (lower prompt) \<notin> set ['''', ''y'', ''yes''] then
                        ([Input question,
                          Logging WARNING
                            (''Skipping installation of '' @ [sq] @ package_name @ [sq] @ ''.'')],
                         Some (Return (False,
                            ''User declined to install '' @ package_name @ ''.'')))
                      else ([Input question], None)
                  | Keyboard_interrupt \<Rightarrow>
                      ([Input question,
                        Logging INFO ''\<newline>Installation cancelled by user.''],
                       Some (Sys_exit 1))
                  | Input_error e \<Rightarrow> ([Input question], Some (Raise e)))
               else ([], None))
        in case stop of
             Some r \<Rightarrow> (asked, r)
           | None \<Rightarrow>
               let argv = [python_executable, ''-m'', ''pip'', ''install'', package_name];
                   started = asked @
                     [Logging INFO
                        (''Attempting to install '' @ [sq] @ package_name @ [sq]
                           @ '' with pip...''),
                      Subprocess_run argv]
               in (case pip argv of
                    Pip_completed returncode out err \<Rightarrow>
                      if returncode = 0 then
                        (started @
                           [Logging INFO
                              (''Successfully installed '' @ [sq] @ package_name @ [sq] @ ''.''),
                            Print out],
                         Return (True, ''''))
                      else
                        (started,
                         Return (False,
                           ''Failed to install '' @ [sq] @ package_name @ [sq] @ ''.\<newline>''
                             @ ''pip exited with status '' @ str_int returncode @ ''.\<newline>''
                             @ ''Stderr:\<newline>'' @ err))
                  | Pip_not_found \<Rightarrow>
                      (started,
                       Return (False,
                         ''Error: '' @ [sq] @ python_executable @ [sq]
                           @ '' command not found. Is Python installed and in your PATH?''))
                  | Pip_error e \<Rightarrow> (started, Raise e)))"

section \<open>The resolution loop\<close>

text \<open>
  The arguments of \<^verbatim>\<open>resolve_dependencies\<close>, and the outside world: what the run of
  the target, the prompt and pip answer during the attempt of a given number
  (the value of \<^verbatim>\<open>retries\<close> after its increment).
\<close>

record params =
  script_path :: string
  timeout :: int
  assume_yes :: bool
  python_executable :: string

record env =
  run_target :: "nat \<Rightarrow> run_result"
  user_input :: "nat \<Rightarrow> string \<Rightarrow> prompt_result"
  run_pip :: "nat \<Rightarrow> string list \<Rightarrow> pip_result"

text \<open>
  The ways out of the loop, named after the terminal reasons of the specification
  where it has one: the \<^verbatim>\<open>break\<close> of the success branch, of the timeout handler and of
  the unrecognised failure; the \<^verbatim>\<open>sys.exit(1)\<close> after an install that returned
  \<^verbatim>\<open>False\<close> (declined or failed: one path in the source, with the installer's message),
  the \<^verbatim>\<open>sys.exit\<close> of the installer on an interrupt, of the \<^verbatim>\<open>FileNotFoundError\<close>
  handler and of the last handler; and the loop condition becoming false.
\<close>

datatype terminal_reason =
    Success
  | TimeoutAssumedSuccess
  | UnrecognizedFailure
  | InstallAborted string
  | OperatorInterrupt
  | ExecutableNotFound
  | UnexpectedError string
  | RetryLimitExceeded

datatype control =
    Continue string
  | Break terminal_reason
  | Exit terminal_reason int

definition max_retries :: nat where
  "max_retries = 20"

text \<open>
  Every iteration starts with the log line of the attempt and the call of
  \<^verbatim>\<open>subprocess.run\<close> on the interpreter and the script.
\<close>

definition attempt_start :: "params \<Rightarrow> nat \<Rightarrow> event list" where
  "attempt_start p retries =
     [Logging INFO
        (''--- Attempt '' @ str_int (int retries) @ '': Running '' @ [sq]
           @ script_path p @ [sq] @ '' using '' @ [sq] @ python_executable p @ [sq]
           @ '' ---''),
      Subprocess_run [python_executable p, script_path p]]"

text \<open>The body of the \<^verbatim>\<open>try\<close> statement and its handlers, for a value of \<^verbatim>\<open>retries\<close>.\<close>

definition attempt :: "env \<Rightarrow> params \<Rightarrow> nat \<Rightarrow> event list \<times> control" where
  "attempt env p retries =
     (let started = attempt_start p retries
      in case run_target env retries of
           Completed returncode out stderr_output \<Rightarrow>
             (let unrecognized =
                    (started @
                       [Logging ERROR
                          ''Script failed with an error that is not a recognized import error.'',
                        Logging ERROR (''Return Code: '' @ str_int returncode),
                        Print (''\<newline>--- STDOUT ---\<newline>'' @ out),
                        Print (''\<newline>--- STDERR ---\<newline>'' @ stderr_output)],
                     Break UnrecognizedFailure)
              in if returncode \<noteq> 0 \<and> stderr_output \<noteq> [] then
                   (case parse_missing_module stderr_output of
                      None \<Rightarrow> unrecognized
                    | Some missing_module \<Rightarrow>
                        if missing_module \<noteq> [] then
                          (let (evs, r) =
                                 install_package (user_input env retries) (run_pip env retries)
                                   missing_module (python_executable p) (assume_yes p);
                               tr = started @
                                 [Logging INFO
                                    (''Detected missing module: '' @ [sq] @ missing_module
                                       @ [sq])] @ evs
                           in (case r of
                                 Return (success, message) \<Rightarrow>
                                   if success then (tr, Continue missing_module)
                                   else
                                     (tr @
                                        [Logging ERROR (''Error: '' @ message),
                                         Logging CRITICAL
                                           ''Aborting due to installation failure.''],
                                      Exit (InstallAborted message) 1)
                               | Sys_exit c \<Rightarrow> (tr, Exit OperatorInterrupt c)
                               | Raise e \<Rightarrow>
                                   (tr @
                                      [Logging CRITICAL
                                         (''An unexpected error occurred: '' @ e)],
                                    Exit (UnexpectedError e) 1)))
                        else unrecognized)
                 else
                   (started @
                      [Logging INFO ''--- Script Execution Successful ---'',
                       Logging INFO ''The script ran without any import errors.'',
                       Print (''\<newline>--- STDOUT ---\<newline>'' @ out)]
                      @ (if stderr_output \<noteq> []
                         then [Print (''\<newline>--- STDERR ---\<newline>'' @ stderr_output)]
                         else []),
                    Break Success))
         | Timeout_expired \<Rightarrow>
             (started @
                [Logging WARNING ''--- Script Execution Timed Out ---'',
                 Logging WARNING
                   (''The script ran for more than the specified timeout of ''
                      @ str_int (timeout p) @ '' seconds without exiting.''),
                 Logging INFO ''Assuming all dependencies are resolved.''],
              Break TimeoutAssumedSuccess)
         | File_not_found \<Rightarrow>
             (started @
                [Logging CRITICAL
                   (''Error: The script '' @ [sq] @ script_path p @ [sq] @ '' or interpreter ''
                      @ [sq] @ python_executable p @ [sq] @ '' was not found.'')],
              Exit ExecutableNotFound 1)
         | Other_error e \<Rightarrow>
             (started @ [Logging CRITICAL (''An unexpected error occurred: '' @ e)],
              Exit (UnexpectedError e) 1))"

text \<open>
  The variables of \<^verbatim>\<open>resolve_dependencies\<close>, with the events so far. One iteration
  increments \<^verbatim>\<open>retries\<close>, makes the attempt, and appends the package on \<^verbatim>\<open>continue\<close>.
\<close>

record state =
  retries :: nat
  installed_packages :: "string list"
  trace :: "event list"

definition iteration :: "env \<Rightarrow> params \<Rightarrow> state \<Rightarrow> state \<times> control" where
  "iteration env p st =
     (let st1 = st\<lparr>retries := retries st + 1\<rparr>;
          (evs, c) = attempt env p (retries st1);
          st2 = st1\<lparr>trace := trace st1 @ evs\<rparr>
      in (case c of
            Continue pkg \<Rightarrow> (st2\<lparr>installed_packages := installed_packages st2 @ [pkg]\<rparr>, c)
          | Break r \<Rightarrow> (st2, c)
          | Exit r code \<Rightarrow> (st2, c)))"

text \<open>
  The \<^verbatim>\<open>while\<close> loop: the state when it is left, through which way, and the exit status
  when the way is a \<^verbatim>\<open>sys.exit\<close>.
\<close>

function loop :: "env \<Rightarrow> params \<Rightarrow> state \<Rightarrow> state \<times> terminal_reason \<times> int option" where
  "loop env p st =
     (if retries st < max_retries then
        (case iteration env p st of
           (st', Continue pkg) \<Rightarrow> loop env p st'
         | (st', Break r) \<Rightarrow> (st', r, None)
         | (st', Exit r code) \<Rightarrow> (st', r, Some code))
      else (st, RetryLimitExceeded, None))"
  by pat_completeness auto
termination
  by (relation "measure (\<lambda>(env, p, st). max_retries - retries st)")
    (auto simp: iteration_def Let_def split: prod.splits control.splits)

declare loop.simps [simp del]

text \<open>The code after the loop: the retry-limit message and the summary.\<close>

definition summary :: "string list \<Rightarrow> event list" where
  "summary pkgs =
     [Print ''\<newline>--- Dependency Resolution Summary ---'']
     @ (if pkgs \<noteq> []
        then Print ''Successfully installed the following packages:''
               # map (\<lambda>pkg. Print (''  - '' @ pkg)) pkgs
        else [Print ''No new packages needed to be installed.''])
     @ [Print ''---------------------------------------'']"

record outcome =
  final :: state
  reason :: terminal_reason
  exit_status :: "int option"

definition resolve_dependencies :: "env \<Rightarrow> params \<Rightarrow> outcome" where
  "resolve_dependencies env p =
     (case loop env p \<lparr>retries = 0, installed_packages = [], trace = []\<rparr> of
        (st, r, Some code) \<Rightarrow> \<lparr>final = st, reason = r, exit_status = Some code\<rparr>
      | (st, r, None) \<Rightarrow>
          \<lparr>final = st\<lparr>trace := trace st
                 @ (if retries st \<ge> max_retries
                    then [Logging CRITICAL
                            ''Reached maximum number of retries. Aborting to prevent infinite loop.'']
                    else [])
                 @ summary (installed_packages st)\<rparr>,
           reason = r, exit_status = None\<rparr>)"

section \<open>Scripted worlds\<close>

text \<open>
  Worlds that answer the same at every attempt, for the concrete runs below: the
  target fails with the diagnostic of a missing \<^verbatim>\<open>requests\<close>, and pip answers as given.
\<close>

definition always :: "'a \<Rightarrow> 'b \<Rightarrow> 'a" where
  "always x y = x"

definition module_error :: "string \<Rightarrow> string" where
  "module_error name = ''ModuleNotFoundError: No module named '' @ [sq] @ name @ [sq]"

definition always_missing :: "pip_result \<Rightarrow> env" where
  "always_missing answer =
     \<lparr>run_target = always (Completed 1 [] (module_error ''requests'')),
      user_input = always (always Keyboard_interrupt),
      run_pip = always (always answer)\<rparr>"

definition unattended :: params where
  "unattended =
     \<lparr>script_path = ''app.py'', timeout = 15, assume_yes = True,
      python_executable = ''python''\<rparr>"

text \<open>A world where every run of the target ends the same way, and the initial state.\<close>

definition same_run :: "run_result \<Rightarrow> env" where
  "same_run r =
     \<lparr>run_target = always r,
      user_input = always (always Keyboard_interrupt),
      run_pip = always (always Pip_not_found)\<rparr>"

definition fresh :: state where
  "fresh = \<lparr>retries = 0, installed_packages = [], trace = []\<rparr>"

section \<open>Counting the runs of the target\<close>

text \<open>How often a trace holds the call that runs the script under the interpreter.\<close>

definition target_runs :: "params \<Rightarrow> event list \<Rightarrow> nat" where
  "target_runs p evs =
     length (filter (\<lambda>e. e = Subprocess_run [python_executable p, script_path p]) evs)"

section \<open>Ways out that reach the summary\<close>





section \<open>The parser's contract, as the specification words it\<close>

text \<open>
  The specification lists three templates. A template matches a text at an offset,
  with a name: the quoted ones with a name free of the quote, between two quotes; the
  unquoted one with the longest run of characters that are not whitespace. A template
  matches a text when it does so at some offset, and captures the name of its leftmost
  match.
\<close>

definition spec_quoted_at :: "char \<Rightarrow> string \<Rightarrow> nat \<Rightarrow> string \<Rightarrow> bool" where
  "spec_quoted_at q text i name \<longleftrightarrow>
     i \<le> length text \<and> q \<notin> set name \<and>
     (\<exists>post. drop i text = ''No module named '' @ [q] @ name @ [q] @ post)"

definition spec_unquoted_at :: "string \<Rightarrow> nat \<Rightarrow> string \<Rightarrow> bool" where
  "spec_unquoted_at text i name \<longleftrightarrow>
     i \<le> length text \<and> name \<noteq> [] \<and> (\<forall>c \<in> set name. \<not> is_space c) \<and>
     (\<exists>post. drop i text = ''ImportError: No module named '' @ name @ post \<and>
        (post = [] \<or> is_space (hd post)))"

definition spec_matches :: "(string \<Rightarrow> nat \<Rightarrow> string \<Rightarrow> bool) \<Rightarrow> string \<Rightarrow> bool" where
  "spec_matches tpl text \<longleftrightarrow> (\<exists>i name. tpl text i name)"

definition spec_captures :: "(string \<Rightarrow> nat \<Rightarrow> string \<Rightarrow> bool) \<Rightarrow> string \<Rightarrow> string \<Rightarrow> bool" where
  "spec_captures tpl text name \<longleftrightarrow>
     (\<exists>i. tpl text i name \<and> (\<forall>j<i. \<forall>name'. \<not> tpl text j name'))"

section \<open>Properties of the parser\<close>

lemma strip_prefix_Some: "strip_prefix p s = Some r \<longleftrightarrow> s = p @ r"
  by (induction p s rule: strip_prefix.induct) auto

lemma strip_prefix_None: "strip_prefix p s = None \<longleftrightarrow> (\<forall>r. s \<noteq> p @ r)"
  by (induction p s rule: strip_prefix.induct) auto

lemma takeWhile_until: "q \<notin> set n \<Longrightarrow> takeWhile (\<lambda>c. c \<noteq> q) (n @ q # post) = n"
  by (induction n) auto

lemma split_at_first: "q \<in> set rest \<Longrightarrow>
    \<exists>post. rest = takeWhile (\<lambda>c. c \<noteq> q) rest @ q # post"
  by (induction rest) auto

lemma match_quoted_Some:
  "match_quoted q s = Some n \<longleftrightarrow>
     q \<notin> set n \<and> (\<exists>post. s = ''No module named '' @ [q] @ n @ [q] @ post)"
proof
  assume a: "match_quoted q s = Some n"
  then obtain rest where r: "strip_prefix (''No module named '' @ [q]) s = Some rest"
    and m: "q \<in> set rest" and n: "n = takeWhile (\<lambda>c. c \<noteq> q) rest"
    by (auto simp: match_quoted_def split: option.splits if_splits)
  from split_at_first [OF m] obtain post where "rest = n @ q # post" using n by auto
  moreover have "s = (''No module named '' @ [q]) @ rest" using r by (simp only: strip_prefix_Some)
  moreover have "q \<notin> set n" using n by (auto dest: set_takeWhileD)
  ultimately show "q \<notin> set n \<and> (\<exists>post. s = ''No module named '' @ [q] @ n @ [q] @ post)"
    by auto
next
  assume "q \<notin> set n \<and> (\<exists>post. s = ''No module named '' @ [q] @ n @ [q] @ post)"
  then obtain post where s: "s = (''No module named '' @ [q]) @ (n @ q # post)" and q: "q \<notin> set n"
    by auto
  have "strip_prefix (''No module named '' @ [q]) s = Some (n @ q # post)"
    using s by (simp only: strip_prefix_Some)
  then show "match_quoted q s = Some n"
    using takeWhile_until [OF q] by (simp add: match_quoted_def)
qed

lemma takeWhile_run: "\<forall>c\<in>set n. P c \<Longrightarrow> post = [] \<or> \<not> P (hd post) \<Longrightarrow> takeWhile P (n @ post) = n"
  by (induction n) (auto simp: takeWhile_eq_Nil_iff)

lemma run_split: "\<exists>post. rest = takeWhile P rest @ post \<and> (post = [] \<or> \<not> P (hd post))"
proof -
  have "rest = takeWhile P rest @ dropWhile P rest" by simp
  moreover have "dropWhile P rest = [] \<or> \<not> P (hd (dropWhile P rest))"
    using hd_dropWhile by blast
  ultimately show ?thesis by blast
qed

lemma match_unquoted_Some:
  "match_unquoted s = Some n \<longleftrightarrow>
     n \<noteq> [] \<and> (\<forall>c \<in> set n. \<not> is_space c) \<and>
     (\<exists>post. s = ''ImportError: No module named '' @ n @ post \<and>
        (post = [] \<or> is_space (hd post)))"
proof
  assume a: "match_unquoted s = Some n"
  then obtain rest where r: "strip_prefix ''ImportError: No module named '' s = Some rest"
    and n: "n = takeWhile (\<lambda>c. \<not> is_space c) rest" and ne: "n \<noteq> []"
    by (auto simp: match_unquoted_def Let_def split: option.splits if_splits)
  from run_split [of rest "\<lambda>c. \<not> is_space c"] obtain post where
    "rest = n @ post" "post = [] \<or> is_space (hd post)" using n by auto
  moreover have "s = ''ImportError: No module named '' @ rest"
    using r by (simp only: strip_prefix_Some)
  moreover have "\<forall>c \<in> set n. \<not> is_space c" using n by (auto dest: set_takeWhileD)
  ultimately show "n \<noteq> [] \<and> (\<forall>c \<in> set n. \<not> is_space c) \<and>
     (\<exists>post. s = ''ImportError: No module named '' @ n @ post \<and>
        (post = [] \<or> is_space (hd post)))" using ne by auto
next
  assume "n \<noteq> [] \<and> (\<forall>c \<in> set n. \<not> is_space c) \<and>
     (\<exists>post. s = ''ImportError: No module named '' @ n @ post \<and>
        (post = [] \<or> is_space (hd post)))"
  then obtain post where s: "s = ''ImportError: No module named '' @ (n @ post)"
    and p: "post = [] \<or> \<not> \<not> is_space (hd post)" and ne: "n \<noteq> []"
    and a: "\<forall>c \<in> set n. \<not> is_space c"
    by auto
  have "strip_prefix ''ImportError: No module named '' s = Some (n @ post)"
    using s by (simp only: strip_prefix_Some)
  then show "match_unquoted s = Some n"
    using takeWhile_run [of n "\<lambda>c. \<not> is_space c" post, OF a p] ne
    by (simp add: match_unquoted_def)
qed

lemma re_search_None: "re_search m t = None \<longleftrightarrow> (\<forall>i\<le>length t. m (drop i t) = None)"
proof (induction t)
  case Nil
  then show ?case by simp
next
  case (Cons c cs)
  have "(\<forall>i\<le>length (c # cs). m (drop i (c # cs)) = None) \<longleftrightarrow>
        m (c # cs) = None \<and> (\<forall>i\<le>length cs. m (drop i cs) = None)"
  proof safe
    fix i assume "\<forall>i\<le>length (c # cs). m (drop i (c # cs)) = None" "i \<le> length cs"
    then have "m (drop (Suc i) (c # cs)) = None" by (metis Suc_le_mono length_Cons)
    then show "m (drop i cs) = None" by simp
  next
    assume "\<forall>i\<le>length (c # cs). m (drop i (c # cs)) = None"
    then have "m (drop 0 (c # cs)) = None" by blast
    then show "m (c # cs) = None" by simp
  next
    fix i assume "m (c # cs) = None" "\<forall>i\<le>length cs. m (drop i cs) = None" "i \<le> length (c # cs)"
    then show "m (drop i (c # cs)) = None" by (cases i) auto
  qed
  with Cons show ?case by (auto split: option.splits)
qed

lemma re_search_Some:
  "re_search m t = Some g \<longleftrightarrow>
     (\<exists>i\<le>length t. m (drop i t) = Some g \<and> (\<forall>j<i. m (drop j t) = None))"
proof (induction t)
  case Nil
  then show ?case by simp
next
  case (Cons c cs)
  show ?case
  proof (cases "m (c # cs)")
    case (Some h)
    have "(\<exists>i\<le>length (c # cs). m (drop i (c # cs)) = Some g \<and> (\<forall>j<i. m (drop j (c # cs)) = None))
          \<longleftrightarrow> h = g"
    proof
      assume "\<exists>i\<le>length (c # cs). m (drop i (c # cs)) = Some g \<and> (\<forall>j<i. m (drop j (c # cs)) = None)"
      then obtain i where i: "m (drop i (c # cs)) = Some g" "\<forall>j<i. m (drop j (c # cs)) = None"
        by blast
      show "h = g"
      proof (cases i)
        case 0 with i Some show ?thesis by simp
      next
        case (Suc k)
        with i have "m (drop 0 (c # cs)) = None" by blast
        with Some show ?thesis by simp
      qed
    next
      assume "h = g"
      with Some have "m (drop 0 (c # cs)) = Some g \<and> (\<forall>j<0. m (drop j (c # cs)) = None)" by simp
      then show "\<exists>i\<le>length (c # cs). m (drop i (c # cs)) = Some g \<and> (\<forall>j<i. m (drop j (c # cs)) = None)"
        by blast
    qed
    with Some show ?thesis by simp
  next
    case None
    have "(\<exists>i\<le>length (c # cs). m (drop i (c # cs)) = Some g \<and> (\<forall>j<i. m (drop j (c # cs)) = None))
          \<longleftrightarrow> (\<exists>i\<le>length cs. m (drop i cs) = Some g \<and> (\<forall>j<i. m (drop j cs) = None))"
    proof
      assume "\<exists>i\<le>length (c # cs). m (drop i (c # cs)) = Some g \<and> (\<forall>j<i. m (drop j (c # cs)) = None)"
      then obtain i where i: "i \<le> length (c # cs)" "m (drop i (c # cs)) = Some g"
        "\<forall>j<i. m (drop j (c # cs)) = None" by blast
      then obtain k where k: "i = Suc k" using None by (cases i) auto
      have "\<forall>j<k. m (drop j cs) = None"
      proof (intro allI impI)
        fix j assume "j < k"
        then have "m (drop (Suc j) (c # cs)) = None" using i(3) k by blast
        then show "m (drop j cs) = None" by simp
      qed
      with i k show "\<exists>i\<le>length cs. m (drop i cs) = Some g \<and> (\<forall>j<i. m (drop j cs) = None)"
        by auto
    next
      assume "\<exists>i\<le>length cs. m (drop i cs) = Some g \<and> (\<forall>j<i. m (drop j cs) = None)"
      then obtain i where i: "i \<le> length cs" "m (drop i cs) = Some g"
        "\<forall>j<i. m (drop j cs) = None" by blast
      have "\<forall>j<Suc i. m (drop j (c # cs)) = None"
      proof (intro allI impI)
        fix j assume "j < Suc i"
        then show "m (drop j (c # cs)) = None" using None i(3) by (cases j) auto
      qed
      moreover have "Suc i \<le> length (c # cs)" "m (drop (Suc i) (c # cs)) = Some g"
        using i by auto
      ultimately show "\<exists>i\<le>length (c # cs). m (drop i (c # cs)) = Some g \<and> (\<forall>j<i. m (drop j (c # cs)) = None)"
        by blast
    qed
    with None Cons show ?thesis by simp
  qed
qed

lemma quoted_at_match:
  "spec_quoted_at q text i name \<longleftrightarrow> i \<le> length text \<and> match_quoted q (drop i text) = Some name"
  by (simp only: spec_quoted_at_def match_quoted_Some) 

lemma unquoted_at_match:
  "spec_unquoted_at text i name \<longleftrightarrow> i \<le> length text \<and> match_unquoted (drop i text) = Some name"
  by (simp only: spec_unquoted_at_def match_unquoted_Some)

lemma leftmost_search:
  "(\<exists>i. (i \<le> length t \<and> m (drop i t) = Some n)
        \<and> (\<forall>j<i. \<forall>n'. \<not> (j \<le> length t \<and> m (drop j t) = Some n')))
   \<longleftrightarrow> re_search m t = Some n"
proof
  assume "\<exists>i. (i \<le> length t \<and> m (drop i t) = Some n)
        \<and> (\<forall>j<i. \<forall>n'. \<not> (j \<le> length t \<and> m (drop j t) = Some n'))"
  then obtain i where le: "i \<le> length t" and mi: "m (drop i t) = Some n"
    and lm: "\<forall>j<i. \<forall>n'. \<not> (j \<le> length t \<and> m (drop j t) = Some n')"
    by auto
  have "m (drop j t) = None" if j: "j < i" for j
  proof -
    have "j \<le> length t" using le j by simp
    then have no: "m (drop j t) \<noteq> Some n'" for n' using lm j by simp
    show ?thesis
    proof (cases "m (drop j t)")
      case None
      then show ?thesis .
    next
      case (Some a)
      with no [of a] show ?thesis by simp
    qed
  qed
  then have "i \<le> length t \<and> m (drop i t) = Some n \<and> (\<forall>j<i. m (drop j t) = None)"
    using le mi by simp
  then have "\<exists>i\<le>length t. m (drop i t) = Some n \<and> (\<forall>j<i. m (drop j t) = None)"
    by (rule_tac x = i in exI)
  then show "re_search m t = Some n" by (simp only: re_search_Some)
next
  assume "re_search m t = Some n"
  then have "\<exists>i\<le>length t. m (drop i t) = Some n \<and> (\<forall>j<i. m (drop j t) = None)"
    by (simp only: re_search_Some)
  then obtain i where i: "i \<le> length t" "m (drop i t) = Some n"
    "\<forall>j<i. m (drop j t) = None" by blast
  have "\<forall>j<i. \<forall>n'. \<not> (j \<le> length t \<and> m (drop j t) = Some n')"
    using i(3) by simp
  with i(1,2) show "\<exists>i. (i \<le> length t \<and> m (drop i t) = Some n)
        \<and> (\<forall>j<i. \<forall>n'. \<not> (j \<le> length t \<and> m (drop j t) = Some n'))"
    by blast
qed

lemma anywhere_search:
  "(\<exists>i n. i \<le> length t \<and> m (drop i t) = Some n) \<longleftrightarrow> re_search m t \<noteq> None"
proof -
  have "re_search m t \<noteq> None \<longleftrightarrow> \<not> (\<forall>i\<le>length t. m (drop i t) = None)"
    by (simp only: re_search_None)
  also have "\<dots> \<longleftrightarrow> (\<exists>i n. i \<le> length t \<and> m (drop i t) = Some n)"
    by auto
  finally show ?thesis by simp
qed

lemma quoted_captures:
  "spec_captures (spec_quoted_at q) text name \<longleftrightarrow> re_search (match_quoted q) text = Some name"
  by (simp only: spec_captures_def quoted_at_match leftmost_search)

lemma quoted_matches:
  "spec_matches (spec_quoted_at q) text \<longleftrightarrow> re_search (match_quoted q) text \<noteq> None"
  by (simp only: spec_matches_def quoted_at_match anywhere_search)

lemma unquoted_captures:
  "spec_captures spec_unquoted_at text name \<longleftrightarrow> re_search match_unquoted text = Some name"
  by (simp only: spec_captures_def unquoted_at_match leftmost_search)

lemma unquoted_matches:
  "spec_matches spec_unquoted_at text \<longleftrightarrow> re_search match_unquoted text \<noteq> None"
  by (simp only: spec_matches_def unquoted_at_match anywhere_search)

text \<open>
  Claim C4. For every text, \<open>parse_missing_module\<close> returns a name exactly when that
  name is captured by the earliest-listed template that matches the text (the
  single-quoted one, then the double-quoted one, then the unquoted \<^verbatim>\<open>ImportError\<close>
  one), and returns \<open>None\<close> exactly when no template matches.
\<close>

theorem parse_missing_module_templates:
  "(parse_missing_module text = Some name \<longleftrightarrow>
      spec_captures (spec_quoted_at sq) text name
      \<or> (\<not> spec_matches (spec_quoted_at sq) text
           \<and> spec_captures (spec_quoted_at dq) text name)
      \<or> (\<not> spec_matches (spec_quoted_at sq) text
           \<and> \<not> spec_matches (spec_quoted_at dq) text
           \<and> spec_captures spec_unquoted_at text name))
   \<and> (parse_missing_module text = None \<longleftrightarrow>
        \<not> spec_matches (spec_quoted_at sq) text
        \<and> \<not> spec_matches (spec_quoted_at dq) text
        \<and> \<not> spec_matches spec_unquoted_at text)"
  unfolding quoted_captures quoted_matches unquoted_captures unquoted_matches
  by (auto simp: parse_missing_module_def patterns_def split: option.splits)

text \<open>The theorem at the diagnostic of scenario A: the single-quoted template captures.\<close>

theorem parse_missing_module_templates_witness:
  "spec_captures (spec_quoted_at sq)
     (''ModuleNotFoundError: No module named '' @ [sq] @ ''requests'' @ [sq]) ''requests''"
proof -
  have "parse_missing_module
     (''ModuleNotFoundError: No module named '' @ [sq] @ ''requests'' @ [sq]) = Some ''requests''"
    by code_simp
  moreover have "re_search (match_quoted sq) (''ModuleNotFoundError: No module named '' @ [sq] @ ''requests'' @ [sq]) \<noteq> None"
    by code_simp
  ultimately show ?thesis
    using parse_missing_module_templates
      [of "''ModuleNotFoundError: No module named '' @ [sq] @ ''requests'' @ [sq]" "''requests''"]
    unfolding quoted_matches by blast
qed

text \<open>
  Claim C5 says that a returned name is never empty. The quoted groups are starred, so
  empty quotes give a match whose group is the empty string, and the parser returns
  that match's group.
\<close>

theorem parse_empty_name: "parse_missing_module (''No module named '' @ [sq, sq]) = Some []"
  by code_simp

lemma re_search_sublist:
  "re_search m t = Some g \<Longrightarrow> \<exists>i\<le>length t. m (drop i t) = Some g"
  unfolding re_search_Some by blast

lemma sublist_drop: "drop i t = xs @ post \<Longrightarrow> sublist xs t"
  by (metis append_take_drop_id sublist_appendI)

text \<open>
  Claim C5, amended. A returned name is non-empty unless the text holds a quoted
  template with nothing between its quotes.
\<close>

theorem parse_name_nonempty_unless_empty_quotes:
  assumes "parse_missing_module text = Some name"
  shows "name \<noteq> []
         \<or> sublist (''No module named '' @ [sq, sq]) text
         \<or> sublist (''No module named '' @ [dq, dq]) text"
proof -
  from assms consider
      (a) "re_search (match_quoted sq) text = Some name"
    | (b) "re_search (match_quoted dq) text = Some name"
    | (c) "re_search match_unquoted text = Some name"
    by (auto simp: parse_missing_module_def patterns_def split: option.splits)
  then show ?thesis
  proof cases
    case a
    then obtain i post where "drop i text = ''No module named '' @ [sq] @ name @ [sq] @ post"
      using re_search_sublist match_quoted_Some by blast
    then have "name = [] \<Longrightarrow> drop i text = (''No module named '' @ [sq, sq]) @ post" by simp
    then show ?thesis using sublist_drop by blast
  next
    case b
    then obtain i post where "drop i text = ''No module named '' @ [dq] @ name @ [dq] @ post"
      using re_search_sublist match_quoted_Some by blast
    then have "name = [] \<Longrightarrow> drop i text = (''No module named '' @ [dq, dq]) @ post" by simp
    then show ?thesis using sublist_drop by blast
  next
    case c
    then have "name \<noteq> []" using re_search_sublist match_unquoted_Some by blast
    then show ?thesis by simp
  qed
qed

text \<open>The amended claim at a text of the unquoted form.\<close>

theorem parse_name_nonempty_unless_empty_quotes_witness:
  "parse_missing_module ''ImportError: No module named yaml  '' = Some ''yaml''
   \<and> \<not> sublist (''No module named '' @ [sq, sq]) ''ImportError: No module named yaml  ''
   \<and> \<not> sublist (''No module named '' @ [dq, dq]) ''ImportError: No module named yaml  ''
   \<and> ''yaml'' \<noteq> []"
proof -
  have h: "parse_missing_module ''ImportError: No module named yaml  '' = Some ''yaml''"
    by code_simp
  have "\<not> sublist (''No module named '' @ [sq, sq]) ''ImportError: No module named yaml  ''"
    by code_simp
  moreover have "\<not> sublist (''No module named '' @ [dq, dq]) ''ImportError: No module named yaml  ''"
    by code_simp
  ultimately show ?thesis using h parse_name_nonempty_unless_empty_quotes [OF h] by simp
qed

section \<open>Properties of the installer\<close>

lemma install_empty:
  "install_package ask pip [] py yes = ([], Return (False, ''No package name provided.''))"
  by (simp add: install_package_def)

lemma install_events_pip:
  "Subprocess_run argv \<in> set (fst (install_package ask pip pkg py yes)) \<Longrightarrow>
   argv = [py, ''-m'', ''pip'', ''install'', pkg] \<and> pkg \<noteq> []"
  by (auto simp: install_package_def Let_def split: if_splits prompt_result.splits pip_result.splits)

lemma install_true:
  "snd (install_package ask pip pkg py yes) = Return (True, msg) \<Longrightarrow>
   msg = [] \<and> Subprocess_run [py, ''-m'', ''pip'', ''install'', pkg]
      \<in> set (fst (install_package ask pip pkg py yes)) \<and>
   (\<exists>out err. pip [py, ''-m'', ''pip'', ''install'', pkg] = Pip_completed 0 out err)"
  by (auto simp: install_package_def Let_def split: if_splits prompt_result.splits pip_result.splits)

lemma install_invoked:
  "Subprocess_run [py, ''-m'', ''pip'', ''install'', pkg]
      \<in> set (fst (install_package ask pip pkg py yes)) \<Longrightarrow>
   snd (install_package ask pip pkg py yes) =
     (case pip [py, ''-m'', ''pip'', ''install'', pkg] of
        Pip_completed rc out err \<Rightarrow>
          if rc = 0 then Return (True, [])
          else Return (False,
                 ''Failed to install '' @ [sq] @ pkg @ [sq] @ ''.\<newline>''
                   @ ''pip exited with status '' @ str_int rc @ ''.\<newline>''
                   @ ''Stderr:\<newline>'' @ err)
      | Pip_not_found \<Rightarrow>
          Return (False, ''Error: '' @ [sq] @ py @ [sq]
             @ '' command not found. Is Python installed and in your PATH?'')
      | Pip_error e \<Rightarrow> Raise e)"
  by (auto simp: install_package_def Let_def split: if_splits prompt_result.splits pip_result.splits)

text \<open>
  Claim C8. \<open>install_package\<close> returns \<open>True\<close> exactly when it invoked pip and pip
  exited with 0; when pip exits with another status it returns \<open>False\<close> with a
  diagnostic that contains the status and the captured standard error; and for an empty
  package name it returns \<open>False\<close> at once, with no event at all, so without invoking
  pip.
\<close>

theorem install_package_contract:
  "(snd (install_package ask pip pkg py yes) = Return (True, msg) \<longleftrightarrow>
      msg = [] \<and>
      Subprocess_run [py, ''-m'', ''pip'', ''install'', pkg]
        \<in> set (fst (install_package ask pip pkg py yes)) \<and>
      (\<exists>out err. pip [py, ''-m'', ''pip'', ''install'', pkg] = Pip_completed 0 out err))
   \<and> (Subprocess_run [py, ''-m'', ''pip'', ''install'', pkg]
          \<in> set (fst (install_package ask pip pkg py yes)) \<and>
        pip [py, ''-m'', ''pip'', ''install'', pkg] = Pip_completed rc out' err' \<and> rc \<noteq> 0 \<longrightarrow>
        (\<exists>d. snd (install_package ask pip pkg py yes) = Return (False, d) \<and>
             sublist (str_int rc) d \<and> sublist err' d))
   \<and> (pkg = [] \<longrightarrow>
        install_package ask pip pkg py yes = ([], Return (False, ''No package name provided.'')))"
proof (intro conjI impI)
  show "snd (install_package ask pip pkg py yes) = Return (True, msg) \<longleftrightarrow>
      msg = [] \<and>
      Subprocess_run [py, ''-m'', ''pip'', ''install'', pkg]
        \<in> set (fst (install_package ask pip pkg py yes)) \<and>
      (\<exists>out err. pip [py, ''-m'', ''pip'', ''install'', pkg] = Pip_completed 0 out err)"
  proof
    assume "snd (install_package ask pip pkg py yes) = Return (True, msg)"
    then show "msg = [] \<and>
      Subprocess_run [py, ''-m'', ''pip'', ''install'', pkg]
        \<in> set (fst (install_package ask pip pkg py yes)) \<and>
      (\<exists>out err. pip [py, ''-m'', ''pip'', ''install'', pkg] = Pip_completed 0 out err)"
      by (rule install_true)
  next
    assume a: "msg = [] \<and>
      Subprocess_run [py, ''-m'', ''pip'', ''install'', pkg]
        \<in> set (fst (install_package ask pip pkg py yes)) \<and>
      (\<exists>out err. pip [py, ''-m'', ''pip'', ''install'', pkg] = Pip_completed 0 out err)"
    then obtain out err where p: "pip [py, ''-m'', ''pip'', ''install'', pkg] = Pip_completed 0 out err"
      by auto
    from a have "Subprocess_run [py, ''-m'', ''pip'', ''install'', pkg]
        \<in> set (fst (install_package ask pip pkg py yes))" by simp
    from install_invoked [OF this] p a
    show "snd (install_package ask pip pkg py yes) = Return (True, msg)" by simp
  qed
next
  assume a: "Subprocess_run [py, ''-m'', ''pip'', ''install'', pkg]
          \<in> set (fst (install_package ask pip pkg py yes)) \<and>
        pip [py, ''-m'', ''pip'', ''install'', pkg] = Pip_completed rc out' err' \<and> rc \<noteq> 0"
  then have i: "Subprocess_run [py, ''-m'', ''pip'', ''install'', pkg]
          \<in> set (fst (install_package ask pip pkg py yes))" by simp
  let ?d = "(''Failed to install '' @ [sq] @ pkg @ [sq] @ ''.\<newline>''
                   @ ''pip exited with status '') @ str_int rc @ (''.\<newline>''
                   @ ''Stderr:\<newline>'' @ err')"
  have r: "snd (install_package ask pip pkg py yes) = Return (False, ?d)"
    using install_invoked [OF i] a by simp
  have "sublist (str_int rc) ?d" by (rule sublist_appendI)
  moreover have "sublist err' ((''Failed to install '' @ [sq] @ pkg @ [sq] @ ''.\<newline>''
                   @ ''pip exited with status '' @ str_int rc @ ''.\<newline>''
                   @ ''Stderr:\<newline>'') @ err')" by (rule sublist_append_leftI)
  then have "sublist err' ?d" by simp
  ultimately show "\<exists>d. snd (install_package ask pip pkg py yes) = Return (False, d) \<and>
             sublist (str_int rc) d \<and> sublist err' d" using r by blast
next
  assume "pkg = []"
  then show "install_package ask pip pkg py yes = ([], Return (False, ''No package name provided.''))"
    by (simp add: install_empty)
qed

text \<open>The contract at a successful install, at a failing one, and at the empty name.\<close>

theorem install_package_contract_witness:
  "snd (install_package (always Keyboard_interrupt) (always (Pip_completed 0 ''ok'' []))
         ''requests'' ''python'' True) = Return (True, [])
   \<and> (\<exists>d. snd (install_package (always Keyboard_interrupt)
                 (always (Pip_completed 2 [] ''No matching distribution''))
                 ''requests'' ''python'' True) = Return (False, d)
          \<and> sublist (str_int 2) d \<and> sublist ''No matching distribution'' d)
   \<and> install_package (always Keyboard_interrupt) (always (Pip_completed 0 ''ok'' []))
        [] ''python'' True = ([], Return (False, ''No package name provided.''))"
proof -
  have i0: "Subprocess_run [''python'', ''-m'', ''pip'', ''install'', ''requests'']
     \<in> set (fst (install_package (always Keyboard_interrupt) (always (Pip_completed 0 ''ok'' []))
         ''requests'' ''python'' True))"
    by (simp add: install_package_def always_def)
  have i2: "Subprocess_run [''python'', ''-m'', ''pip'', ''install'', ''requests'']
     \<in> set (fst (install_package (always Keyboard_interrupt)
                 (always (Pip_completed 2 [] ''No matching distribution''))
         ''requests'' ''python'' True))"
    by (simp add: install_package_def always_def)
  have p0: "always (Pip_completed 0 ''ok'' []) [''python'', ''-m'', ''pip'', ''install'', ''requests'']
      = Pip_completed 0 ''ok'' []" by (simp add: always_def)
  have p2: "always (Pip_completed 2 [] ''No matching distribution'')
       [''python'', ''-m'', ''pip'', ''install'', ''requests'']
      = Pip_completed 2 [] ''No matching distribution''" by (simp add: always_def)
  have n: "(2::int) \<noteq> 0" by simp
  from install_package_contract [of "always Keyboard_interrupt"
        "always (Pip_completed 0 ''ok'' [])" "''requests''" "''python''" True "[]"] i0 p0
  have a: "snd (install_package (always Keyboard_interrupt) (always (Pip_completed 0 ''ok'' []))
         ''requests'' ''python'' True) = Return (True, [])" by blast
  from install_package_contract [of "always Keyboard_interrupt"
        "always (Pip_completed 2 [] ''No matching distribution'')" "''requests''" "''python''" True
        _ 2 "[]" "''No matching distribution''"] i2 p2 n
  have b: "\<exists>d. snd (install_package (always Keyboard_interrupt)
                 (always (Pip_completed 2 [] ''No matching distribution''))
                 ''requests'' ''python'' True) = Return (False, d)
          \<and> sublist (str_int 2) d \<and> sublist ''No matching distribution'' d" by blast
  from install_package_contract [of "always Keyboard_interrupt"
        "always (Pip_completed 0 ''ok'' [])" "[]" "''python''" True]
  have c: "install_package (always Keyboard_interrupt) (always (Pip_completed 0 ''ok'' []))
        [] ''python'' True = ([], Return (False, ''No package name provided.''))" by blast
  from a b c show ?thesis by blast
qed

text \<open>
  Claim C10. Without auto-confirm, once the operator has answered the prompt (which
  is shown for a non-empty package name), pip is invoked exactly when the answer,
  lowercased and stripped, is empty, \<^verbatim>\<open>y\<close> or \<^verbatim>\<open>yes\<close>; any other answer ends the call after the
  prompt and a warning, with \<open>False\<close> and the declined diagnostic.
\<close>

theorem install_package_prompt:
  assumes "\<not> yes" and "pkg \<noteq> []"
    and "ask (''Missing package '' @ [sq] @ pkg @ [sq] @ ''. Install with pip? [Y/n] '')
           = Response r"
  shows "(Subprocess_run [py, ''-m'', ''pip'', ''install'', pkg]
            \<in> set (fst (install_package ask pip pkg py yes))
          \<longleftrightarrow> strip (lower r) \<in> {[], ''y'', ''yes''})
       \<and> (strip (lower r) \<notin> {[], ''y'', ''yes''} \<longrightarrow>
            install_package ask pip pkg py yes =
              ([Input (''Missing package '' @ [sq] @ pkg @ [sq] @ ''. Install with pip? [Y/n] ''),
                Logging WARNING (''Skipping installation of '' @ [sq] @ pkg @ [sq] @ ''.'')],
               Return (False, ''User declined to install '' @ pkg @ ''.'')))"
  using assms
  by (auto simp: install_package_def Let_def split: pip_result.splits)

text \<open>The prompt at a consenting answer and at a refusal.\<close>

theorem install_package_prompt_witness:
  "Subprocess_run [''python'', ''-m'', ''pip'', ''install'', ''requests'']
     \<in> set (fst (install_package (always (Response '' YES '')) (always Pip_not_found)
                  ''requests'' ''python'' False))
   \<and> strip (lower '' YES '') \<in> {[], ''y'', ''yes''}
   \<and> install_package (always (Response ''no'')) (always Pip_not_found)
         ''requests'' ''python'' False =
         ([Input (''Missing package '' @ [sq] @ ''requests'' @ [sq] @ ''. Install with pip? [Y/n] ''),
           Logging WARNING (''Skipping installation of '' @ [sq] @ ''requests'' @ [sq] @ ''.'')],
          Return (False, ''User declined to install requests.''))"
proof -
  have y: "strip (lower '' YES '') \<in> {[], ''y'', ''yes''}" by code_simp
  have n: "strip (lower ''no'') \<notin> {[], ''y'', ''yes''}" by code_simp
  have ne: "''requests'' \<noteq> []" by simp
  have f: "\<not> False" by simp
  have a1: "always (Response '' YES '')
      (''Missing package '' @ [sq] @ ''requests'' @ [sq] @ ''. Install with pip? [Y/n] '')
      = Response '' YES ''" by (simp add: always_def)
  have a2: "always (Response ''no'')
      (''Missing package '' @ [sq] @ ''requests'' @ [sq] @ ''. Install with pip? [Y/n] '')
      = Response ''no''" by (simp add: always_def)
  from install_package_prompt [where ask = "always (Response '' YES '')" and pkg = "''requests''"
      and r = "'' YES ''" and yes = False and py = "''python''" and pip = "always Pip_not_found",
      OF f ne a1] y
  have 1: "Subprocess_run [''python'', ''-m'', ''pip'', ''install'', ''requests'']
     \<in> set (fst (install_package (always (Response '' YES '')) (always Pip_not_found)
                  ''requests'' ''python'' False))" by blast
  from install_package_prompt [where ask = "always (Response ''no'')" and pkg = "''requests''"
      and r = "''no''" and yes = False and py = "''python''" and pip = "always Pip_not_found",
      OF f ne a2] n
  have 2: "install_package (always (Response ''no'')) (always Pip_not_found)
         ''requests'' ''python'' False =
         ([Input (''Missing package '' @ [sq] @ ''requests'' @ [sq] @ ''. Install with pip? [Y/n] ''),
           Logging WARNING (''Skipping installation of '' @ [sq] @ ''requests'' @ [sq] @ ''.'')],
          Return (False, ''User declined to install requests.''))" by simp
  from 1 y 2 show ?thesis by blast
qed

section \<open>Properties of the loop\<close>


lemma loop_stop: "\<not> retries st < max_retries \<Longrightarrow> loop env p st = (st, RetryLimitExceeded, None)"
  by (subst loop.simps) simp

lemma loop_step:
  "retries st < max_retries \<Longrightarrow>
   loop env p st =
     (case iteration env p st of
        (st', Continue pkg) \<Rightarrow> loop env p st'
      | (st', Break r) \<Rightarrow> (st', r, None)
      | (st', Exit r code) \<Rightarrow> (st', r, Some code))"
  by (subst loop.simps) simp

lemma iteration_retries: "retries (fst (iteration env p st)) = retries st + 1"
  by (simp add: iteration_def Let_def split: prod.splits control.splits)

lemma iteration_control: "snd (iteration env p st) = snd (attempt env p (retries st + 1))"
  by (simp add: iteration_def Let_def split: prod.splits control.splits)

lemma iteration_trace:
  "trace (fst (iteration env p st)) = trace st @ fst (attempt env p (retries st + 1))"
  by (simp add: iteration_def Let_def split: prod.splits control.splits)

lemma iteration_installed:
  "installed_packages (fst (iteration env p st)) =
     (case snd (attempt env p (retries st + 1)) of
        Continue pkg \<Rightarrow> installed_packages st @ [pkg]
      | _ \<Rightarrow> installed_packages st)"
  by (simp add: iteration_def Let_def split: prod.splits control.splits)

lemma loop_retries_le:
  "retries st \<le> max_retries \<Longrightarrow> retries (fst (loop env p st)) \<le> max_retries"
proof (induction env p st rule: loop.induct)
  case (1 env p st)
  show ?case
  proof (cases "retries st < max_retries")
    case False
    with 1(2) show ?thesis by (simp add: loop_stop)
  next
    case True
    obtain st' c where it: "iteration env p st = (st', c)" by (cases "iteration env p st")
    have r': "retries st' = retries st + 1" using iteration_retries [of env p st] it by simp
    show ?thesis
    proof (cases c)
      case (Continue pkg)
      have "retries (fst (loop env p st')) \<le> max_retries"
        using 1(1) [OF True it [symmetric] Continue] r' True by simp
      then show ?thesis using True it Continue by (simp add: loop_step)
    next
      case (Break r)
      then show ?thesis using True it r' by (simp add: loop_step)
    next
      case (Exit r code)
      then show ?thesis using True it r' by (simp add: loop_step)
    qed
  qed
qed

lemma target_runs_append: "target_runs p (xs @ ys) = target_runs p xs + target_runs p ys"
  by (simp add: target_runs_def)

lemma target_runs_none:
  "\<forall>e\<in>set evs. e \<noteq> Subprocess_run [python_executable p, script_path p] \<Longrightarrow>
   target_runs p evs = 0"
  by (simp add: target_runs_def)

lemma target_runs_start: "target_runs p (attempt_start p n) = 1"
  by (simp add: target_runs_def attempt_start_def)

lemma install_no_target_run:
  "target_runs p (fst (install_package ask pip pkg py yes)) = 0"
proof (rule target_runs_none, rule ballI)
  fix e assume e: "e \<in> set (fst (install_package ask pip pkg py yes))"
  show "e \<noteq> Subprocess_run [python_executable p, script_path p]"
  proof
    assume "e = Subprocess_run [python_executable p, script_path p]"
    with e install_events_pip [of "[python_executable p, script_path p]" ask pip pkg py yes]
    show False by simp
  qed
qed

lemma install_no_pair_run:
  "install_package ask pip pkg py yes = (evs, r) \<Longrightarrow> Subprocess_run [a, b] \<in> set evs \<Longrightarrow> False"
  using install_events_pip [of "[a, b]" ask pip pkg py yes] by simp

lemma attempt_target_runs: "target_runs p (fst (attempt env p n)) = 1"
  by (auto simp: attempt_def Let_def target_runs_def attempt_start_def filter_empty_conv
      split: run_result.splits option.splits prod.splits result.splits
      dest: install_no_pair_run)

lemma iteration_target_runs:
  "target_runs p (trace (fst (iteration env p st))) = target_runs p (trace st) + 1"
  by (simp add: iteration_trace target_runs_append attempt_target_runs)

lemma loop_target_runs:
  "target_runs p (trace st) = retries st \<Longrightarrow>
   target_runs p (trace (fst (loop env p st))) = retries (fst (loop env p st))"
proof (induction env p st rule: loop.induct)
  case (1 env p st)
  show ?case
  proof (cases "retries st < max_retries")
    case False
    with 1(2) show ?thesis by (simp add: loop_stop)
  next
    case True
    obtain st' c where it: "iteration env p st = (st', c)" by (cases "iteration env p st")
    have r': "retries st' = retries st + 1" using iteration_retries [of env p st] it by simp
    have t': "target_runs p (trace st') = target_runs p (trace st) + 1"
      using iteration_target_runs [of p env st] it by simp
    show ?thesis
    proof (cases c)
      case (Continue pkg)
      have "target_runs p (trace (fst (loop env p st'))) = retries (fst (loop env p st'))"
        using 1(1) [OF True it [symmetric] Continue] r' t' 1(2) by simp
      then show ?thesis using True it Continue by (simp add: loop_step)
    next
      case (Break r)
      then show ?thesis using True it r' t' 1(2) by (simp add: loop_step)
    next
      case (Exit r code)
      then show ?thesis using True it r' t' 1(2) by (simp add: loop_step)
    qed
  qed
qed

lemma summary_no_target_run: "target_runs p (summary pkgs) = 0"
  by (rule target_runs_none) (auto simp: summary_def)

lemma all_continue:
  "\<forall>n. retries st < n \<and> n \<le> max_retries \<longrightarrow> (\<exists>pkg. snd (attempt env p n) = Continue pkg) \<Longrightarrow>
   retries st \<le> max_retries \<Longrightarrow>
   snd (loop env p st) = (RetryLimitExceeded, None) \<and> retries (fst (loop env p st)) = max_retries"
proof (induction env p st rule: loop.induct)
  case (1 env p st)
  show ?case
  proof (cases "retries st < max_retries")
    case False
    with 1(3) show ?thesis by (simp add: loop_stop)
  next
    case True
    obtain st' c where it: "iteration env p st = (st', c)" by (cases "iteration env p st")
    have r': "retries st' = retries st + 1" using iteration_retries [of env p st] it by simp
    have "c = snd (attempt env p (retries st + 1))" using iteration_control [of env p st] it by simp
    moreover have "\<exists>pkg. snd (attempt env p (retries st + 1)) = Continue pkg"
      using 1(2) True by simp
    ultimately obtain pkg where c: "c = Continue pkg" by auto
    have "\<forall>n. retries st' < n \<and> n \<le> max_retries \<longrightarrow> (\<exists>pkg. snd (attempt env p n) = Continue pkg)"
      using 1(2) r' by simp
    moreover have "retries st' \<le> max_retries" using r' True by simp
    ultimately have "snd (loop env p st') = (RetryLimitExceeded, None) \<and>
        retries (fst (loop env p st')) = max_retries"
      using 1(1) [OF True it [symmetric] c] by blast
    then show ?thesis using True it c by (simp add: loop_step)
  qed
qed

lemma resolve_retries:
  "retries (final (resolve_dependencies env p)) =
     retries (fst (loop env p \<lparr>retries = 0, installed_packages = [], trace = []\<rparr>))"
  by (simp add: resolve_dependencies_def split: prod.splits option.splits)

lemma resolve_installed:
  "installed_packages (final (resolve_dependencies env p)) =
     installed_packages (fst (loop env p \<lparr>retries = 0, installed_packages = [], trace = []\<rparr>))"
  by (simp add: resolve_dependencies_def split: prod.splits option.splits)

lemma resolve_reason:
  "reason (resolve_dependencies env p) =
     fst (snd (loop env p \<lparr>retries = 0, installed_packages = [], trace = []\<rparr>))"
  by (simp add: resolve_dependencies_def split: prod.splits option.splits)

lemma resolve_exit_status:
  "exit_status (resolve_dependencies env p) =
     snd (snd (loop env p \<lparr>retries = 0, installed_packages = [], trace = []\<rparr>))"
  by (simp add: resolve_dependencies_def split: prod.splits option.splits)

lemma resolve_trace:
  "trace (final (resolve_dependencies env p)) =
     (let st = fst (loop env p \<lparr>retries = 0, installed_packages = [], trace = []\<rparr>)
      in case snd (snd (loop env p \<lparr>retries = 0, installed_packages = [], trace = []\<rparr>)) of
           Some code \<Rightarrow> trace st
         | None \<Rightarrow>
             trace st
             @ (if retries st \<ge> max_retries
                then [Logging CRITICAL
                        ''Reached maximum number of retries. Aborting to prevent infinite loop.'']
                else [])
             @ summary (installed_packages st))"
  by (simp add: resolve_dependencies_def Let_def split: prod.splits option.splits)

lemma target_runs_Cons:
  "target_runs p (e # evs) =
     (if e = Subprocess_run [python_executable p, script_path p] then 1 else 0)
       + target_runs p evs"
  by (simp add: target_runs_def)

lemma resolve_target_runs:
  "target_runs p (trace (final (resolve_dependencies env p))) =
     retries (final (resolve_dependencies env p))"
proof -
  let ?l = "loop env p \<lparr>retries = 0, installed_packages = [], trace = []\<rparr>"
  have "target_runs p (trace \<lparr>retries = 0, installed_packages = [], trace = []\<rparr>)
        = retries \<lparr>retries = 0, installed_packages = [], trace = []\<rparr>"
    by (simp add: target_runs_def)
  then have l: "target_runs p (trace (fst ?l)) = retries (fst ?l)" by (rule loop_target_runs)
  have c: "target_runs p [Logging CRITICAL
            ''Reached maximum number of retries. Aborting to prevent infinite loop.''] = 0"
    by (simp add: target_runs_def)
  show ?thesis
    by (simp add: resolve_retries resolve_trace Let_def target_runs_append target_runs_Cons l
          summary_no_target_run split: option.splits)
qed

text \<open>
  Claim C1. One iteration increments \<open>retries\<close> by exactly 1; at the end of any
  execution \<open>retries\<close> is at most 20 and equals the number of times the target was
  run, so there is no 21st attempt; and when each of the attempts 1 to 20 ends in
  \<^verbatim>\<open>continue\<close>, the loop is left through its condition, with \<open>retries\<close> at 20, and the
  retry-limit message is logged.
\<close>

theorem retries_bounded:
  "retries (fst (iteration env p st)) = retries st + 1
   \<and> retries (final (resolve_dependencies env p)) \<le> 20
   \<and> target_runs p (trace (final (resolve_dependencies env p)))
       = retries (final (resolve_dependencies env p))
   \<and> ((\<forall>n. 1 \<le> n \<and> n \<le> 20 \<longrightarrow> (\<exists>pkg. snd (attempt env p n) = Continue pkg)) \<longrightarrow>
        reason (resolve_dependencies env p) = RetryLimitExceeded
        \<and> exit_status (resolve_dependencies env p) = None
        \<and> retries (final (resolve_dependencies env p)) = 20
        \<and> Logging CRITICAL
             ''Reached maximum number of retries. Aborting to prevent infinite loop.''
            \<in> set (trace (final (resolve_dependencies env p))))"
proof (intro conjI impI)
  show "retries (fst (iteration env p st)) = retries st + 1" by (rule iteration_retries)
next
  have "retries \<lparr>retries = 0, installed_packages = [], trace = []\<rparr> \<le> max_retries" by simp
  from loop_retries_le [OF this]
  show "retries (final (resolve_dependencies env p)) \<le> 20"
    by (simp add: resolve_retries max_retries_def)
next
  show "target_runs p (trace (final (resolve_dependencies env p)))
       = retries (final (resolve_dependencies env p))" by (rule resolve_target_runs)
next
  assume a: "\<forall>n. 1 \<le> n \<and> n \<le> 20 \<longrightarrow> (\<exists>pkg. snd (attempt env p n) = Continue pkg)"
  let ?i = "\<lparr>retries = 0, installed_packages = [], trace = []\<rparr>"
  have "\<forall>n. retries ?i < n \<and> n \<le> max_retries \<longrightarrow> (\<exists>pkg. snd (attempt env p n) = Continue pkg)"
    using a by (simp add: max_retries_def)
  moreover have "retries ?i \<le> max_retries" by simp
  ultimately have l: "snd (loop env p ?i) = (RetryLimitExceeded, None) \<and>
      retries (fst (loop env p ?i)) = max_retries" by (rule all_continue)
  show "reason (resolve_dependencies env p) = RetryLimitExceeded"
    using l by (simp add: resolve_reason)
  show "exit_status (resolve_dependencies env p) = None"
    using l by (simp add: resolve_exit_status)
  show "retries (final (resolve_dependencies env p)) = 20"
    using l by (simp add: resolve_retries max_retries_def)
  show "Logging CRITICAL
             ''Reached maximum number of retries. Aborting to prevent infinite loop.''
            \<in> set (trace (final (resolve_dependencies env p)))"
    using l by (simp add: resolve_trace Let_def)
qed

lemma parse_module_error: "parse_missing_module (module_error ''requests'') = Some ''requests''"
  by code_simp

lemma module_error_nonempty: "module_error name \<noteq> []"
  by (simp add: module_error_def)

lemma attempt_installs:
  "attempt (always_missing (Pip_completed 0 [] [])) unattended n =
     (attempt_start unattended n @
        [Logging INFO (''Detected missing module: '' @ [sq] @ ''requests'' @ [sq]),
         Logging INFO (''Attempting to install '' @ [sq] @ ''requests'' @ [sq] @ '' with pip...''),
         Subprocess_run [''python'', ''-m'', ''pip'', ''install'', ''requests''],
         Logging INFO (''Successfully installed '' @ [sq] @ ''requests'' @ [sq] @ ''.''),
         Print []],
      Continue ''requests'')"
  by (simp add: attempt_def Let_def always_missing_def unattended_def always_def
        parse_module_error module_error_nonempty install_package_def)

text \<open>A world where every install succeeds and the target keeps failing: 20 attempts.\<close>

theorem retries_bounded_witness:
  "snd (attempt (always_missing (Pip_completed 0 [] [])) unattended 20) = Continue ''requests''
   \<and> reason (resolve_dependencies (always_missing (Pip_completed 0 [] [])) unattended)
        = RetryLimitExceeded
   \<and> retries (final (resolve_dependencies (always_missing (Pip_completed 0 [] [])) unattended))
        = 20
   \<and> target_runs unattended
        (trace (final (resolve_dependencies (always_missing (Pip_completed 0 [] [])) unattended)))
        = 20"
proof -
  have h: "\<forall>n. 1 \<le> n \<and> n \<le> 20 \<longrightarrow>
       (\<exists>pkg. snd (attempt (always_missing (Pip_completed 0 [] [])) unattended n) = Continue pkg)"
    by (simp add: attempt_installs)
  from retries_bounded [of "always_missing (Pip_completed 0 [] [])" unattended] h
  show ?thesis by (simp add: attempt_installs)
qed

lemma loop_break:
  assumes "retries st < max_retries" and "attempt env p (retries st + 1) = (evs, Break r)"
  shows "loop env p st =
           (st\<lparr>retries := retries st + 1, trace := trace st @ evs\<rparr>, r, None)"
  using assms by (simp add: loop_step iteration_def Let_def)

lemma attempt_timeout:
  "run_target env n = Timeout_expired \<Longrightarrow>
   attempt env p n =
     (attempt_start p n @
        [Logging WARNING ''--- Script Execution Timed Out ---'',
         Logging WARNING
           (''The script ran for more than the specified timeout of ''
              @ str_int (timeout p) @ '' seconds without exiting.''),
         Logging INFO ''Assuming all dependencies are resolved.''],
      Break TimeoutAssumedSuccess)"
  by (simp add: attempt_def Let_def)

text \<open>
  Claim C6. An iteration whose run of the target times out leaves the loop on the
  spot through the timeout handler: the reason is \<open>TimeoutAssumedSuccess\<close>, never
  \<open>UnrecognizedFailure\<close>; the events of the iteration are the run and three log lines,
  with neither a prompt nor a call of pip; the packages are unchanged.
\<close>

theorem timeout_assumed_success:
  assumes "retries st < max_retries"
    and "run_target env (retries st + 1) = Timeout_expired"
  shows "loop env p st =
           (st\<lparr>retries := retries st + 1,
               trace := trace st @ attempt_start p (retries st + 1) @
                 [Logging WARNING ''--- Script Execution Timed Out ---'',
                  Logging WARNING
                    (''The script ran for more than the specified timeout of ''
                       @ str_int (timeout p) @ '' seconds without exiting.''),
                  Logging INFO ''Assuming all dependencies are resolved.'']\<rparr>,
            TimeoutAssumedSuccess, None)"
  using loop_break [OF assms(1) attempt_timeout [OF assms(2)]] by simp

text \<open>A target that always times out, from the initial state.\<close>

theorem timeout_assumed_success_witness:
  "loop (same_run Timeout_expired) unattended fresh =
     (\<lparr>retries = 1, installed_packages = [],
       trace = attempt_start unattended 1 @
         [Logging WARNING ''--- Script Execution Timed Out ---'',
          Logging WARNING
            ''The script ran for more than the specified timeout of 15 seconds without exiting.'',
          Logging INFO ''Assuming all dependencies are resolved.'']\<rparr>,
      TimeoutAssumedSuccess, None)"
proof -
  have 1: "retries fresh < max_retries" by (simp add: fresh_def max_retries_def)
  have 2: "run_target (same_run Timeout_expired) (retries fresh + 1) = Timeout_expired"
    by (simp add: same_run_def always_def)
  have 3: "str_int (timeout unattended) = ''15''" by code_simp
  show ?thesis
    using timeout_assumed_success [OF 1 2, of unattended] 3 by (simp add: fresh_def)
qed


lemma attempt_unrecognized:
  "run_target env n = Completed rc out err \<Longrightarrow> rc \<noteq> 0 \<Longrightarrow> err \<noteq> [] \<Longrightarrow>
   parse_missing_module err = None \<Longrightarrow>
   attempt env p n =
     (attempt_start p n @
        [Logging ERROR ''Script failed with an error that is not a recognized import error.'',
         Logging ERROR (''Return Code: '' @ str_int rc),
         Print (''\<newline>--- STDOUT ---\<newline>'' @ out),
         Print (''\<newline>--- STDERR ---\<newline>'' @ err)],
      Break UnrecognizedFailure)"
  by (simp add: attempt_def Let_def)

text \<open>
  Claim C7. An attempt on which the parser is consulted (non-zero return code,
  non-empty standard error) and finds nothing leaves the loop on that attempt with
  \<open>UnrecognizedFailure\<close>; its events are the run, two error lines and the two captured
  streams printed as they are, with neither a prompt nor a call of pip.
\<close>

theorem unrecognized_failure:
  assumes "retries st < max_retries"
    and "run_target env (retries st + 1) = Completed rc out err"
    and "rc \<noteq> 0" and "err \<noteq> []"
    and "parse_missing_module err = None"
  shows "loop env p st =
           (st\<lparr>retries := retries st + 1,
               trace := trace st @ attempt_start p (retries st + 1) @
                 [Logging ERROR
                    ''Script failed with an error that is not a recognized import error.'',
                  Logging ERROR (''Return Code: '' @ str_int rc),
                  Print (''\<newline>--- STDOUT ---\<newline>'' @ out),
                  Print (''\<newline>--- STDERR ---\<newline>'' @ err)]\<rparr>,
            UnrecognizedFailure, None)"
  using loop_break [OF assms(1) attempt_unrecognized [OF assms(2-5)]] by simp

text \<open>Scenario B: a target that fails with a syntax error.\<close>

theorem unrecognized_failure_witness:
  "loop (same_run (Completed 1 ''out'' ''SyntaxError: invalid syntax'')) unattended fresh =
     (\<lparr>retries = 1, installed_packages = [],
       trace = attempt_start unattended 1 @
         [Logging ERROR ''Script failed with an error that is not a recognized import error.'',
          Logging ERROR ''Return Code: 1'',
          Print ''\<newline>--- STDOUT ---\<newline>out'',
          Print ''\<newline>--- STDERR ---\<newline>SyntaxError: invalid syntax'']\<rparr>,
      UnrecognizedFailure, None)"
proof -
  have 1: "retries fresh < max_retries" by (simp add: fresh_def max_retries_def)
  have 2: "run_target (same_run (Completed 1 ''out'' ''SyntaxError: invalid syntax''))
             (retries fresh + 1) = Completed 1 ''out'' ''SyntaxError: invalid syntax''"
    by (simp add: same_run_def always_def)
  have 3: "(1::int) \<noteq> 0" by simp
  have 4: "''SyntaxError: invalid syntax'' \<noteq> []" by simp
  have 5: "parse_missing_module ''SyntaxError: invalid syntax'' = None" by code_simp
  have 6: "str_int 1 = ''1''" by code_simp
  show ?thesis
    using unrecognized_failure [OF 1 2 3 4 5, of unattended] 6 by (simp add: fresh_def)
qed


lemma attempt_success:
  "run_target env n = Completed rc out err \<Longrightarrow> rc = 0 \<or> err = [] \<Longrightarrow>
   attempt env p n =
     (attempt_start p n @
        [Logging INFO ''--- Script Execution Successful ---'',
         Logging INFO ''The script ran without any import errors.'',
         Print (''\<newline>--- STDOUT ---\<newline>'' @ out)]
        @ (if err \<noteq> [] then [Print (''\<newline>--- STDERR ---\<newline>'' @ err)] else []),
      Break Success)"
  by (auto simp: attempt_def Let_def)

lemma attempt_not_success:
  "run_target env n = Completed rc out err \<Longrightarrow> rc \<noteq> 0 \<Longrightarrow> err \<noteq> [] \<Longrightarrow>
   snd (attempt env p n) \<noteq> Break Success"
  by (auto simp: attempt_def Let_def split: option.splits prod.splits result.splits)

text \<open>
  Claim C9. A completed run takes the success branch exactly when its return code is
  0 or its standard error is empty; with an empty standard error the attempt is the
  same whatever the return code, so a non-zero one gives what a clean run gives; and
  the loop, from any state below the retry limit, makes that one attempt and stops:
  \<open>retries\<close> is one more, the events of the success branch are appended, the packages
  are unchanged, and the reason is \<open>Success\<close> with no exit.
\<close>

theorem silent_failure_is_success:
  assumes "run_target env n = Completed rc out err"
  shows "(snd (attempt env p n) = Break Success \<longleftrightarrow> rc = 0 \<or> err = [])
       \<and> (err = [] \<longrightarrow>
            attempt env p n =
              (attempt_start p n @
                 [Logging INFO ''--- Script Execution Successful ---'',
                  Logging INFO ''The script ran without any import errors.'',
                  Print (''\<newline>--- STDOUT ---\<newline>'' @ out)],
               Break Success))
       \<and> (err = [] \<and> n = retries st + 1 \<and> retries st < max_retries \<longrightarrow>
            loop env p st =
              (st\<lparr>retries := retries st + 1,
                  trace := trace st @ attempt_start p (retries st + 1) @
                    [Logging INFO ''--- Script Execution Successful ---'',
                     Logging INFO ''The script ran without any import errors.'',
                     Print (''\<newline>--- STDOUT ---\<newline>'' @ out)]\<rparr>,
               Success, None))"
proof (intro conjI impI)
  show "snd (attempt env p n) = Break Success \<longleftrightarrow> rc = 0 \<or> err = []"
    using attempt_success [OF assms, of p] attempt_not_success [OF assms, of p] by auto
next
  assume "err = []"
  then show "attempt env p n =
              (attempt_start p n @
                 [Logging INFO ''--- Script Execution Successful ---'',
                  Logging INFO ''The script ran without any import errors.'',
                  Print (''\<newline>--- STDOUT ---\<newline>'' @ out)],
               Break Success)"
    using attempt_success [OF assms, of p] by simp
next
  assume a: "err = [] \<and> n = retries st + 1 \<and> retries st < max_retries"
  then have "attempt env p (retries st + 1) =
     (attempt_start p (retries st + 1) @
        [Logging INFO ''--- Script Execution Successful ---'',
         Logging INFO ''The script ran without any import errors.'',
         Print (''\<newline>--- STDOUT ---\<newline>'' @ out)], Break Success)"
    using attempt_success [OF assms, of p] by simp
  from loop_break [OF _ this] a
  show "loop env p st =
              (st\<lparr>retries := retries st + 1,
                  trace := trace st @ attempt_start p (retries st + 1) @
                    [Logging INFO ''--- Script Execution Successful ---'',
                     Logging INFO ''The script ran without any import errors.'',
                     Print (''\<newline>--- STDOUT ---\<newline>'' @ out)]\<rparr>,
               Success, None)" by simp
qed

text \<open>A target that exits with 3 and writes nothing to standard error.\<close>

theorem silent_failure_is_success_witness:
  "attempt (same_run (Completed 3 ''partial'' [])) unattended 1 =
     (attempt_start unattended 1 @
        [Logging INFO ''--- Script Execution Successful ---'',
         Logging INFO ''The script ran without any import errors.'',
         Print ''\<newline>--- STDOUT ---\<newline>partial''],
      Break Success)
   \<and> loop (same_run (Completed 3 ''partial'' [])) unattended fresh =
       (\<lparr>retries = 1, installed_packages = [],
         trace = attempt_start unattended 1 @
           [Logging INFO ''--- Script Execution Successful ---'',
            Logging INFO ''The script ran without any import errors.'',
            Print ''\<newline>--- STDOUT ---\<newline>partial'']\<rparr>,
        Success, None)"
proof -
  have 1: "run_target (same_run (Completed 3 ''partial'' [])) 1 = Completed 3 ''partial'' []"
    by (simp add: same_run_def always_def)
  have 2: "[] = ([]::string) \<and> (1::nat) = retries fresh + 1 \<and> retries fresh < max_retries"
    by (simp add: fresh_def max_retries_def)
  show ?thesis
    using silent_failure_is_success [OF 1, of unattended fresh] 2 by (simp add: fresh_def)
qed

lemma loop_exit:
  assumes "retries st < max_retries" and "attempt env p (retries st + 1) = (evs, Exit r c)"
  shows "loop env p st =
           (st\<lparr>retries := retries st + 1, trace := trace st @ evs\<rparr>, r, Some c)"
  using assms by (simp add: loop_step iteration_def Let_def)

lemma attempt_install_fails:
  assumes "run_target env n = Completed rc out err" and "rc \<noteq> 0" and "err \<noteq> []"
    and "parse_missing_module err = Some m" and "m \<noteq> []"
    and "install_package (user_input env n) (run_pip env n) m (python_executable p)
           (assume_yes p) = (evs, Return (False, msg))"
  shows "attempt env p n =
           (attempt_start p n @
              [Logging INFO (''Detected missing module: '' @ [sq] @ m @ [sq])] @ evs @
              [Logging ERROR (''Error: '' @ msg),
               Logging CRITICAL ''Aborting due to installation failure.''],
            Exit (InstallAborted msg) 1)"
  using assms by (simp add: attempt_def Let_def)


lemma install_unattended_fails:
  "install_package (user_input (always_missing (Pip_completed 1 [] ''ERROR'')) n)
     (run_pip (always_missing (Pip_completed 1 [] ''ERROR'')) n) m
     (python_executable unattended) (assume_yes unattended) =
     (if m = [] then ([], Return (False, ''No package name provided.''))
      else ([Logging INFO (''Attempting to install '' @ [sq] @ m @ [sq] @ '' with pip...''),
             Subprocess_run [''python'', ''-m'', ''pip'', ''install'', m]],
            Return (False,
              ''Failed to install '' @ [sq] @ m @ [sq] @ ''.\<newline>''
                @ ''pip exited with status '' @ str_int 1 @ ''.\<newline>''
                @ ''Stderr:\<newline>'' @ ''ERROR'')))"
  by (simp add: install_package_def always_missing_def unattended_def always_def)

lemma pip_exits_1_loop:
  "\<exists>evs. loop (always_missing (Pip_completed 1 [] ''ERROR'')) unattended fresh =
     (\<lparr>retries = 1, installed_packages = [],
       trace = evs @ [Logging CRITICAL ''Aborting due to installation failure.'']\<rparr>,
      InstallAborted
        (''Failed to install '' @ [sq] @ ''requests'' @ [sq]
           @ ''.\<newline>pip exited with status 1.\<newline>Stderr:\<newline>ERROR''),
      Some 1)"
proof -
  let ?e = "always_missing (Pip_completed 1 [] ''ERROR'')"
  have s: "str_int 1 = ''1''" by code_simp
  have r: "run_target ?e (retries fresh + 1) = Completed 1 [] (module_error ''requests'')"
    by (simp add: always_missing_def always_def)
  have i: "install_package (user_input ?e (retries fresh + 1)) (run_pip ?e (retries fresh + 1))
       ''requests'' (python_executable unattended) (assume_yes unattended) =
       ([Logging INFO (''Attempting to install '' @ [sq] @ ''requests'' @ [sq] @ '' with pip...''),
         Subprocess_run [''python'', ''-m'', ''pip'', ''install'', ''requests'']],
        Return (False, ''Failed to install '' @ [sq] @ ''requests'' @ [sq]
           @ ''.\<newline>pip exited with status 1.\<newline>Stderr:\<newline>ERROR''))"
    using s by (simp add: install_unattended_fails)
  have n: "(1::int) \<noteq> 0" by simp
  have l: "retries fresh < max_retries" by (simp add: fresh_def max_retries_def)
  from loop_exit [OF l attempt_install_fails
      [OF r n module_error_nonempty parse_module_error _ i]]
  show ?thesis by (simp add: fresh_def)
qed


text \<open>
  Claim C2 says that a target whose every attempt reports a recognised missing module,
  with every install failing, ends at the retry limit on attempt 20. The source leaves
  through \<^verbatim>\<open>sys.exit(1)\<close> as soon as \<open>install_package\<close> returns \<open>False\<close>, so on
  attempt 1. The counterexample is the world where pip always exits with 1.
\<close>

theorem install_failure_not_retry_limit:
  "reason (resolve_dependencies (always_missing (Pip_completed 1 [] ''ERROR'')) unattended)
     \<noteq> RetryLimitExceeded
   \<and> retries (final (resolve_dependencies (always_missing (Pip_completed 1 [] ''ERROR''))
        unattended)) = 1
   \<and> exit_status (resolve_dependencies (always_missing (Pip_completed 1 [] ''ERROR''))
        unattended) = Some 1"
  using pip_exits_1_loop
  by (auto simp: resolve_reason resolve_retries resolve_exit_status fresh_def)

text \<open>
  Claim C2, amended. When every attempt reports a recognised, non-empty missing module
  and every install returns \<open>False\<close>, the run ends on attempt 1 through the abort after
  a failed install, with exit status 1 and nothing installed.
\<close>

theorem install_failure_aborts:
  assumes "\<forall>n. \<exists>rc out err m. run_target env n = Completed rc out err \<and> rc \<noteq> 0 \<and> err \<noteq> []
             \<and> parse_missing_module err = Some m \<and> m \<noteq> []"
    and "\<forall>n m. \<exists>evs msg.
           install_package (user_input env n) (run_pip env n) m (python_executable p)
             (assume_yes p) = (evs, Return (False, msg))"
  shows "\<exists>msg. reason (resolve_dependencies env p) = InstallAborted msg
           \<and> exit_status (resolve_dependencies env p) = Some 1
           \<and> retries (final (resolve_dependencies env p)) = 1
           \<and> installed_packages (final (resolve_dependencies env p)) = []"
proof -
  let ?i = "\<lparr>retries = 0, installed_packages = [], trace = []\<rparr>"
  from assms(1) obtain rc out err m where r: "run_target env 1 = Completed rc out err"
    "rc \<noteq> 0" "err \<noteq> []" "parse_missing_module err = Some m" "m \<noteq> []" by blast
  from assms(2) obtain evs msg where i:
    "install_package (user_input env 1) (run_pip env 1) m (python_executable p)
       (assume_yes p) = (evs, Return (False, msg))" by blast
  have a: "attempt env p (retries ?i + 1) =
      (attempt_start p 1 @
              [Logging INFO (''Detected missing module: '' @ [sq] @ m @ [sq])] @ evs @
              [Logging ERROR (''Error: '' @ msg),
               Logging CRITICAL ''Aborting due to installation failure.''],
            Exit (InstallAborted msg) 1)"
    using attempt_install_fails [OF r i] by simp
  have l: "retries ?i < max_retries" by (simp add: max_retries_def)
  have "reason (resolve_dependencies env p) = InstallAborted msg
           \<and> exit_status (resolve_dependencies env p) = Some 1
           \<and> retries (final (resolve_dependencies env p)) = 1
           \<and> installed_packages (final (resolve_dependencies env p)) = []"
    using loop_exit [OF l a]
    by (simp add: resolve_reason resolve_exit_status resolve_retries resolve_installed)
  then show ?thesis by blast
qed

text \<open>The amended claim in the world where pip always exits with 1.\<close>

theorem install_failure_aborts_witness:
  "\<exists>msg. reason (resolve_dependencies (always_missing (Pip_completed 1 [] ''ERROR'')) unattended)
            = InstallAborted msg
         \<and> exit_status (resolve_dependencies (always_missing (Pip_completed 1 [] ''ERROR''))
              unattended) = Some 1
         \<and> retries (final (resolve_dependencies (always_missing (Pip_completed 1 [] ''ERROR''))
              unattended)) = 1
         \<and> installed_packages (final (resolve_dependencies
              (always_missing (Pip_completed 1 [] ''ERROR'')) unattended)) = []"
proof -
  have 1: "\<forall>n. \<exists>rc out err m.
      run_target (always_missing (Pip_completed 1 [] ''ERROR'')) n = Completed rc out err
      \<and> rc \<noteq> 0 \<and> err \<noteq> [] \<and> parse_missing_module err = Some m \<and> m \<noteq> []"
    by (simp add: always_missing_def always_def parse_module_error module_error_nonempty)
  have 2: "\<forall>n m. \<exists>evs msg.
      install_package (user_input (always_missing (Pip_completed 1 [] ''ERROR'')) n)
        (run_pip (always_missing (Pip_completed 1 [] ''ERROR'')) n) m
        (python_executable unattended) (assume_yes unattended) = (evs, Return (False, msg))"
    by (simp add: install_unattended_fails)
  show ?thesis by (rule install_failure_aborts [OF 1 2])
qed




















end
